theory Spec2Isabelle
  imports Main
begin

section \<open>Python values and strings\<close>

text \<open>
  The study-manager parser (\<^verbatim>\<open>cs_studymanager_parser.py\<close>) is a set of queries over
  an \<^verbatim>\<open>xml.dom.minidom\<close> tree. Every exception the Python can raise is a value of
  \<open>error\<close>; a method returns \<open>error + 'a\<close>, with \<open>Inl\<close> for the exception.
  \<^verbatim>\<open>sys.exit(1)\<close> raises \<open>SystemExit\<close>; the \<^verbatim>\<open>print\<close> before it is not modelled.
\<close>

datatype error =
  SystemExit | ValueError | KeyError | AttributeError | TypeError | NameError | UnboundLocalError

text \<open>
  Strings are lists of characters; a \<open>char\<close> stands for the code point of the same
  number (below 256). \<^verbatim>\<open>str.isspace\<close> on these code points is true for the ASCII
  white space, the separators 28..31, NEL (133) and the no-break space (160).
\<close>

definition isspace :: "char \<Rightarrow> bool" where
  "isspace c = ((of_char c :: nat) \<in> {9, 10, 11, 12, 13, 28, 29, 30, 31, 32, 133, 160})"

text \<open>\<^verbatim>\<open>s.strip()\<close>: white space removed at both ends.\<close>

definition strip :: "string \<Rightarrow> string" where
  "strip s = rev (dropWhile isspace (rev (dropWhile isspace s)))"

text \<open>
  \<^verbatim>\<open>re.split(',', text)\<close> and \<^verbatim>\<open>text.split(',')\<close>: the pieces between the
  separators, empty pieces kept; the empty string gives one empty piece.
\<close>

fun py_split :: "char \<Rightarrow> string \<Rightarrow> string list" where
  "py_split sep [] = [[]]"
| "py_split sep (c # cs) =
     (if c = sep then [] # py_split sep cs
      else (case py_split sep cs of
              [] \<Rightarrow> [[c]]
            | p # ps \<Rightarrow> (c # p) # ps))"

section \<open>The minidom tree\<close>

text \<open>
  A node of \<^verbatim>\<open>xml.dom.minidom\<close>: an element with its tag name, its attributes (name and
  value, in the order of the start tag) and its child nodes, or one of the leaf nodes.
  A document holds its top-level nodes: the document type, comments and processing
  instructions around the root element.
\<close>

datatype node =
    Element string "(string \<times> string) list" "node list"
  | Text string
  | CDATASection string
  | Comment string
  | ProcessingInstruction string string
  | DocumentType string

datatype document = Document "node list"

fun nodeName :: "node \<Rightarrow> string" where
  "nodeName (Element tag attrs children) = tag"
| "nodeName (Text d) = ''#text''"
| "nodeName (CDATASection d) = ''#cdata-section''"
| "nodeName (Comment d) = ''#comment''"
| "nodeName (ProcessingInstruction target d) = target"
| "nodeName (DocumentType name) = name"

text \<open>\<^verbatim>\<open>node.attributes\<close> is \<^verbatim>\<open>None\<close> on every node that is not an element.\<close>

fun attributes :: "node \<Rightarrow> (string \<times> string) list option" where
  "attributes (Element tag attrs children) = Some attrs"
| "attributes n = None"

fun childNodes :: "node \<Rightarrow> node list" where
  "childNodes (Element tag attrs children) = children"
| "childNodes n = []"

definition firstChild :: "node \<Rightarrow> node option" where
  "firstChild n = (case childNodes n of [] \<Rightarrow> None | c # cs \<Rightarrow> Some c)"

fun doc_firstChild :: "document \<Rightarrow> node option" where
  "doc_firstChild (Document []) = None"
| "doc_firstChild (Document (c # cs)) = Some c"

text \<open>The root element of a document, \<^verbatim>\<open>doc.documentElement\<close>.\<close>

fun is_element :: "node \<Rightarrow> bool" where
  "is_element (Element tag attrs children) = True"
| "is_element n = False"

fun documentElement :: "document \<Rightarrow> node option" where
  "documentElement (Document ns) = List.find is_element ns"

text \<open>\<^verbatim>\<open>node.data\<close>: character data nodes have it, an element has not.\<close>

fun node_data :: "node \<Rightarrow> error + string" where
  "node_data (Text d) = Inr d"
| "node_data (CDATASection d) = Inr d"
| "node_data (Comment d) = Inr d"
| "node_data (ProcessingInstruction target d) = Inr d"
| "node_data n = Inl AttributeError"

text \<open>\<^verbatim>\<open>bool(node)\<close>: \<^verbatim>\<open>Node.__bool__\<close> returns \<^verbatim>\<open>True\<close> for every node.\<close>

definition node_bool :: "node \<Rightarrow> bool" where
  "node_bool n = True"

text \<open>\<^verbatim>\<open>node.attributes[k].value\<close>.\<close>

definition attr_value :: "node \<Rightarrow> string \<Rightarrow> error + string" where
  "attr_value n k =
     (case attributes n of
        None \<Rightarrow> Inl TypeError
      | Some attrs \<Rightarrow> (case map_of attrs k of None \<Rightarrow> Inl KeyError | Some v \<Rightarrow> Inr v))"

text \<open>
  \<^verbatim>\<open>getElementsByTagName\<close>: the descendant elements with the tag (every element for
  \<^verbatim>\<open>"*"\<close>), in document order, a parent before its own descendants. Only elements
  (and documents) have the method.
\<close>

fun tag_matches :: "string \<Rightarrow> node \<Rightarrow> bool" where
  "tag_matches name (Element tag attrs children) = (name = ''*'' \<or> tag = name)"
| "tag_matches name n = False"

fun elements_helper :: "string \<Rightarrow> node \<Rightarrow> node list" where
  "elements_helper name (Element tag attrs children) =
     concat (map (\<lambda>c. (if tag_matches name c then [c] else []) @ elements_helper name c) children)"
| "elements_helper name n = []"

fun getElementsByTagName :: "node \<Rightarrow> string \<Rightarrow> error + node list" where
  "getElementsByTagName (Element tag attrs children) name =
     Inr (elements_helper name (Element tag attrs children))"
| "getElementsByTagName n name = Inl AttributeError"

section \<open>The reader\<close>

record parser =
  filename :: string
  doc :: document
  root :: node
  repo :: "string option"
  dest :: "string option"

text \<open>
  \<^verbatim>\<open>Parser.__init__(XMLFileName, doc)\<close>. \<open>parsed\<close> is what
  \<^verbatim>\<open>minidom.parse(XMLFileName)\<close> gives: \<open>None\<close> when it raises.
\<close>

definition Parser_init :: "string \<Rightarrow> document option \<Rightarrow> document option \<Rightarrow> error + parser" where
  "Parser_init XMLFileName doc_arg parsed =
     (case (case doc_arg of
              Some d \<Rightarrow> Inr d
            | None \<Rightarrow> (case parsed of Some d \<Rightarrow> Inr d | None \<Rightarrow> Inl SystemExit)) of
        Inl e \<Rightarrow> Inl e
      | Inr d \<Rightarrow>
          (case doc_firstChild d of
             None \<Rightarrow> Inl AttributeError
           | Some r \<Rightarrow>
               if nodeName r \<noteq> ''studymanager'' then Inl SystemExit
               else Inr \<lparr>filename = XMLFileName, doc = d, root = r, repo = None, dest = None\<rparr>))"

subsection \<open>getStudiesLabel\<close>

fun studies_label_loop :: "node list \<Rightarrow> string list \<Rightarrow> error + string list" where
  "studies_label_loop [] labels = Inr labels"
| "studies_label_loop (n # ns) labels =
     (case attr_value n ''label'' of
        Inl e \<Rightarrow> Inl e
      | Inr label \<Rightarrow>
          (case attr_value n ''status'' of
             Inl e \<Rightarrow> Inl e
           | Inr status \<Rightarrow>
               if status = ''on'' then
                 (if label \<notin> set labels then studies_label_loop ns (labels @ [label])
                  else Inl SystemExit)
               else studies_label_loop ns labels))"

definition getStudiesLabel :: "parser \<Rightarrow> error + string list" where
  "getStudiesLabel self =
     (case getElementsByTagName (root self) ''study'' of
        Inl e \<Rightarrow> Inl e
      | Inr ns \<Rightarrow> studies_label_loop ns [])"

subsection \<open>getStudyNode\<close>

text \<open>
  The loop leaves with the first study labelled \<open>l\<close>. The test \<^verbatim>\<open>if not n\<close> stands
  inside the loop, on the loop variable; after the loop \<^verbatim>\<open>node\<close> is returned as it is,
  \<^verbatim>\<open>None\<close> when no study matched.
\<close>

fun study_node_loop :: "node list \<Rightarrow> string \<Rightarrow> error + node option" where
  "study_node_loop [] l = Inr None"
| "study_node_loop (n # ns) l =
     (case attr_value n ''label'' of
        Inl e \<Rightarrow> Inl e
      | Inr label \<Rightarrow>
          if label = l then
            (case attr_value n ''status'' of
               Inl e \<Rightarrow> Inl e
             | Inr status \<Rightarrow> if status \<noteq> ''on'' then Inl ValueError else Inr (Some n))
          else if \<not> node_bool n then Inl ValueError
          else study_node_loop ns l)"

definition getStudyNode :: "parser \<Rightarrow> string \<Rightarrow> error + node option" where
  "getStudyNode self l =
     (case getElementsByTagName (root self) ''study'' of
        Inl e \<Rightarrow> Inl e
      | Inr ns \<Rightarrow> study_node_loop ns l)"

subsection \<open>getStudyTags and getStudyKeywords\<close>

text \<open>
  The message of the \<^verbatim>\<open>ValueError\<close> for a study turned off is formatted with the name
  \<^verbatim>\<open>l\<close>, which is not bound in \<^verbatim>\<open>getStudyTags\<close>: the \<^verbatim>\<open>raise\<close> ends in a
  \<^verbatim>\<open>NameError\<close>. A missing \<^verbatim>\<open>tags\<close> attribute is caught and gives the empty list.
\<close>

definition getStudyTags :: "node \<Rightarrow> error + string list" where
  "getStudyTags studyNode =
     (case attr_value studyNode ''status'' of
        Inl e \<Rightarrow> Inl e
      | Inr status \<Rightarrow>
          if status \<noteq> ''on'' then Inl NameError
          else Inr (case attr_value studyNode ''tags'' of
                      Inl e \<Rightarrow> []
                    | Inr text \<Rightarrow> map strip (py_split CHR '','' text)))"

text \<open>\<^verbatim>\<open>node_kw.firstChild.data\<close>, an \<^verbatim>\<open>AttributeError\<close> without a first child.\<close>

definition firstChild_data :: "node \<Rightarrow> error + string" where
  "firstChild_data n = (case firstChild n of None \<Rightarrow> Inl AttributeError | Some c \<Rightarrow> node_data c)"

fun keywords_loop :: "node list \<Rightarrow> string list \<Rightarrow> string list" where
  "keywords_loop [] keywords = keywords"
| "keywords_loop (node_kw # ns) keywords =
     (case firstChild_data node_kw of
        Inl e \<Rightarrow> keywords_loop ns keywords
      | Inr text \<Rightarrow> keywords_loop ns (keywords @ map strip (py_split CHR '','' text)))"

definition getStudyKeywords :: "node \<Rightarrow> error + string list" where
  "getStudyKeywords studyNode =
     (case getElementsByTagName studyNode ''study_keywords'' of
        Inl e \<Rightarrow> Inl e
      | Inr ns \<Rightarrow> Inr (keywords_loop ns []))"

subsection \<open>getStatusOnCasesLabels\<close>



subsection \<open>getStatusOnCasesKeywords\<close>

text \<open>
  The record of a case is a dictionary from keys to Python values of several types.
\<close>

datatype val = VNode node | VStr string | VInt int | VList "string list" | VNone

type_synonym dict = "string \<rightharpoonup> val"

text \<open>\<^verbatim>\<open>not v\<close> is true for \<^verbatim>\<open>None\<close>, the empty string, the empty list and zero.\<close>

fun val_bool :: "val \<Rightarrow> bool" where
  "val_bool (VNode n) = node_bool n"
| "val_bool (VStr s) = (s \<noteq> [])"
| "val_bool (VInt i) = (i \<noteq> 0)"
| "val_bool (VList xs) = (xs \<noteq> [])"
| "val_bool VNone = False"

text \<open>\<^verbatim>\<open>str(n)\<close> of a natural number: its decimal digits.\<close>

definition digit_char :: "nat \<Rightarrow> char" where
  "digit_char d = char_of (48 + d)"

fun str_nat :: "nat \<Rightarrow> string" where
  "str_nat n = (if n < 10 then [digit_char n] else str_nat (n div 10) @ [digit_char (n mod 10)])"

declare str_nat.simps [simp del]

text \<open>
  \<^verbatim>\<open>int(s)\<close> of a string: white space around, an optional sign, then decimal digits,
  single underscores allowed between two digits. \<open>None\<close> stands for the
  \<^verbatim>\<open>ValueError\<close>. The bound that recent interpreters put on the number of digits
  is not modelled.
\<close>

definition isdigit :: "char \<Rightarrow> bool" where
  "isdigit c = (48 \<le> (of_char c :: nat) \<and> (of_char c :: nat) \<le> 57)"

definition digit_of :: "char \<Rightarrow> nat" where
  "digit_of c = of_char c - 48"

fun int_digits :: "nat \<Rightarrow> string \<Rightarrow> nat option" where
  "int_digits acc [] = Some acc"
| "int_digits acc [c] = (if isdigit c then Some (10 * acc + digit_of c) else None)"
| "int_digits acc (c # c' # cs) =
     (if isdigit c then int_digits (10 * acc + digit_of c) (c' # cs)
      else if c = CHR ''_'' \<and> isdigit c' then int_digits (10 * acc + digit_of c') cs
      else None)"

fun int_unsigned :: "string \<Rightarrow> nat option" where
  "int_unsigned [] = None"
| "int_unsigned (c # cs) = (if isdigit c then int_digits (digit_of c) cs else None)"

definition py_int :: "string \<Rightarrow> int option" where
  "py_int s =
     (case strip s of
        [] \<Rightarrow> None
      | c # cs \<Rightarrow>
          if c = CHR ''-'' then map_option (\<lambda>n. - int n) (int_unsigned cs)
          else if c = CHR ''+'' then map_option int (int_unsigned cs)
          else map_option int (int_unsigned (c # cs)))"

text \<open>\<^verbatim>\<open>s.find(c)\<close>: the first index of \<open>c\<close>, or \<open>-1\<close>.\<close>

fun find_char :: "char \<Rightarrow> string \<Rightarrow> int" where
  "find_char c [] = - 1"
| "find_char c (x # xs) =
     (if x = c then 0 else (let r = find_char c xs in if r < 0 then - 1 else r + 1))"

text \<open>The slices \<^verbatim>\<open>s[:i]\<close> (a negative \<open>i\<close> counts from the end) and \<^verbatim>\<open>s[-2:]\<close>.\<close>

definition slice_to :: "string \<Rightarrow> int \<Rightarrow> string" where
  "slice_to s i = (if 0 \<le> i then take (nat i) s else take (length s - nat (- i)) s)"

definition slice_last2 :: "string \<Rightarrow> string" where
  "slice_last2 s = drop (length s - 2) s"

text \<open>The expected time of a case in minutes; every exception gives \<^verbatim>\<open>None\<close>.\<close>

definition expected_time :: "node \<Rightarrow> val" where
  "expected_time n =
     (case attr_value n ''expected_time'' of
        Inl e \<Rightarrow> VNone
      | Inr tmp \<Rightarrow>
          (let ind = find_char CHR '':'' tmp in
           case py_int (slice_to tmp ind) of
             None \<Rightarrow> VNone
           | Some h \<Rightarrow>
               (case py_int (slice_last2 tmp) of
                  None \<Rightarrow> VNone
                | Some m \<Rightarrow> VInt (h * 60 + m))))"

text \<open>
  \<^verbatim>\<open>getDepends\<close>: the \<^verbatim>\<open>args\<close> of the last \<^verbatim>\<open>depends\<close> element; the name
  \<^verbatim>\<open>args\<close> is unbound when there is none.
\<close>

fun depends_loop :: "node list \<Rightarrow> string option \<Rightarrow> error + string option" where
  "depends_loop [] args = Inr args"
| "depends_loop (n # ns) args =
     (case attr_value n ''args'' of
        Inl e \<Rightarrow> Inl e
      | Inr a \<Rightarrow> depends_loop ns (Some a))"

definition getDepends :: "node \<Rightarrow> error + string" where
  "getDepends caseNode =
     (case getElementsByTagName caseNode ''depends'' of
        Inl e \<Rightarrow> Inl e
      | Inr ns \<Rightarrow>
          (case depends_loop ns None of
             Inl e \<Rightarrow> Inl e
           | Inr None \<Rightarrow> Inl UnboundLocalError
           | Inr (Some a) \<Rightarrow> Inr a))"

text \<open>\<^verbatim>\<open>Element.getAttribute(name)\<close> of minidom: the empty string when absent.\<close>

definition dom_getAttribute :: "node \<Rightarrow> string \<Rightarrow> string" where
  "dom_getAttribute n k =
     (case attributes n of
        None \<Rightarrow> []
      | Some attrs \<Rightarrow> (case map_of attrs k of None \<Rightarrow> [] | Some v \<Rightarrow> v))"

definition setup_filter_keys :: "string list" where
  "setup_filter_keys = [''notebook'', ''parametric'', ''kw_args'']"

definition structural_tags :: "string list" where
  "structural_tags = [''compare'', ''prepro'', ''script'', ''data'', ''depends'']"

text \<open>
  The loop over the child nodes of a case: a child element with child nodes stores
  the data of its first child under its tag name (unless the tag is structural); a
  child element without child nodes adds its \<^verbatim>\<open>args\<close> when it is a setup key.
\<close>

fun children_loop :: "node list \<Rightarrow> dict \<Rightarrow> error + dict" where
  "children_loop [] d = Inr d"
| "children_loop (Element tag attrs [] # ns) d =
     (if tag \<in> set setup_filter_keys then
        (case d tag of
           None \<Rightarrow> Inl KeyError
         | Some v \<Rightarrow>
             if \<not> val_bool v
             then children_loop ns (d(tag \<mapsto> VStr (dom_getAttribute (Element tag attrs []) ''args'')))
             else (case v of
                     VStr s \<Rightarrow>
                       children_loop ns
                         (d(tag \<mapsto> VStr (s @ '' '' @ dom_getAttribute (Element tag attrs []) ''args'')))
                   | _ \<Rightarrow> Inl TypeError))
      else children_loop ns d)"
| "children_loop (Element tag attrs (c # cs) # ns) d =
     (if tag \<notin> set structural_tags then
        (case node_data c of
           Inl e \<Rightarrow> Inl e
         | Inr t \<Rightarrow> children_loop ns (d(tag \<mapsto> VStr t)))
      else children_loop ns d)"
| "children_loop (n # ns) d = children_loop ns d"

text \<open>
  The record of one enabled case; \<open>count\<close> is \<^verbatim>\<open>list_case[d['label']]\<close> after the
  case has been counted. The flag \<^verbatim>\<open>deprecated_option\<close> only decides a
  \<^verbatim>\<open>print\<close> and is left out.
\<close>

definition case_tags :: "node \<Rightarrow> string list" where
  "case_tags n =
     (case attr_value n ''tags'' of
        Inl e \<Rightarrow> []
      | Inr tags \<Rightarrow> map strip (py_split CHR '','' tags))"

definition case_run_id :: "node \<Rightarrow> nat \<Rightarrow> string" where
  "case_run_id n count =
     (case attr_value n ''run_id'' of
        Inl e \<Rightarrow> ''run'' @ str_nat count
      | Inr v \<Rightarrow> if v \<noteq> [] then v else ''run'' @ str_nat count)"

definition study_tags_of :: "parser \<Rightarrow> string \<Rightarrow> error + string list" where
  "study_tags_of self l =
     (case getStudyNode self l of
        Inl e \<Rightarrow> Inl e
      | Inr None \<Rightarrow> Inl AttributeError
      | Inr (Some studyNode) \<Rightarrow> getStudyTags studyNode)"

definition case_record :: "parser \<Rightarrow> string \<Rightarrow> node \<Rightarrow> string \<Rightarrow> nat \<Rightarrow> error + dict" where
  "case_record self l n label count =
     (case study_tags_of self l of
        Inl e \<Rightarrow> Inl e
      | Inr study_tags \<Rightarrow>
          children_loop (childNodes n)
            (Map.empty
              (''node'' \<mapsto> VNode n,
               ''label'' \<mapsto> VStr label,
               ''run_id'' \<mapsto> VStr (case_run_id n count),
               ''n_procs'' \<mapsto> (case attr_value n ''n_procs'' of Inl e \<Rightarrow> VNone | Inr v \<Rightarrow> VStr v),
               ''tags'' \<mapsto> (if case_tags n @ study_tags = [] then VNone
                              else VList (case_tags n @ study_tags)),
               ''depends'' \<mapsto> (case getDepends n of Inl e \<Rightarrow> VNone | Inr a \<Rightarrow> VStr a),
               ''expected_time'' \<mapsto> expected_time n,
               ''notebook'' \<mapsto> VNone,
               ''parametric'' \<mapsto> VNone,
               ''kw_args'' \<mapsto> VNone)))"

fun cases_keywords_loop ::
  "parser \<Rightarrow> string \<Rightarrow> node list \<Rightarrow> (string \<rightharpoonup> nat) \<Rightarrow> dict list \<Rightarrow> error + dict list" where
  "cases_keywords_loop self l [] list_case data = Inr data"
| "cases_keywords_loop self l (n # ns) list_case data =
     (case attr_value n ''status'' of
        Inl e \<Rightarrow> Inl e
      | Inr status \<Rightarrow>
          if status = ''on'' then
            (case attr_value n ''label'' of
               Inl e \<Rightarrow> Inl e
             | Inr label \<Rightarrow>
                 (let count = (case list_case label of None \<Rightarrow> 1 | Some k \<Rightarrow> k + 1) in
                  case case_record self l n label count of
                    Inl e \<Rightarrow> Inl e
                  | Inr d \<Rightarrow>
                      cases_keywords_loop self l ns (list_case(label \<mapsto> count)) (data @ [d])))
          else cases_keywords_loop self l ns list_case data)"

definition getStatusOnCasesKeywords :: "parser \<Rightarrow> string \<Rightarrow> error + dict list" where
  "getStatusOnCasesKeywords self l =
     (case getStudyNode self l of
        Inl e \<Rightarrow> Inl e
      | Inr None \<Rightarrow> Inl AttributeError
      | Inr (Some studyNode) \<Rightarrow>
          (case getElementsByTagName studyNode ''case'' of
             Inl e \<Rightarrow> Inl e
           | Inr ns \<Rightarrow> cases_keywords_loop self l ns Map.empty []))"

subsection \<open>getAttribute and getAttributeTuple\<close>

text \<open>
  The result is the attribute's value or the caller's default, which may be of any
  type. \<^verbatim>\<open>default = None\<close> is the absence of a default.
\<close>

datatype ('v, 'd) attr_result = Value 'v | Default 'd

definition getAttribute :: "node \<Rightarrow> string \<Rightarrow> 'd option \<Rightarrow> error + (string, 'd) attr_result" where
  "getAttribute n k dflt =
     (case attributes n of
        None \<Rightarrow> Inl AttributeError
      | Some attrs \<Rightarrow>
          if k \<in> set (map fst attrs) then
            (case map_of attrs k of None \<Rightarrow> Inl KeyError | Some v \<Rightarrow> Inr (Value v))
          else (case dflt of None \<Rightarrow> Inl ValueError | Some dv \<Rightarrow> Inr (Default dv)))"

text \<open>
  \<^verbatim>\<open>tuple(float(s) for s in n[1:-1].split(','))\<close>. The conversion \<^verbatim>\<open>float\<close> of
  Python is the parameter \<open>py_float\<close>, \<open>None\<close> where it raises \<^verbatim>\<open>ValueError\<close>.
\<close>

fun floats_of :: "(string \<Rightarrow> 'f option) \<Rightarrow> string list \<Rightarrow> error + 'f list" where
  "floats_of py_float [] = Inr []"
| "floats_of py_float (s # ss) =
     (case py_float s of
        None \<Rightarrow> Inl ValueError
      | Some x \<Rightarrow> (case floats_of py_float ss of Inl e \<Rightarrow> Inl e | Inr xs \<Rightarrow> Inr (x # xs)))"

definition slice_inner :: "string \<Rightarrow> string" where
  "slice_inner s = butlast (tl s)"

definition getAttributeTuple ::
  "(string \<Rightarrow> 'f option) \<Rightarrow> node \<Rightarrow> string \<Rightarrow> 'd option \<Rightarrow> error + ('f list, 'd) attr_result" where
  "getAttributeTuple py_float n k dflt =
     (case attributes n of
        None \<Rightarrow> Inl AttributeError
      | Some attrs \<Rightarrow>
          if k \<in> set (map fst attrs) then
            (case map_of attrs k of
               None \<Rightarrow> Inl KeyError
             | Some v \<Rightarrow>
                 (case floats_of py_float (py_split CHR '','' (slice_inner v)) of
                    Inl e \<Rightarrow> Inl e
                  | Inr xs \<Rightarrow> Inr (Value xs)))
          else (case dflt of None \<Rightarrow> Inl ValueError | Some dv \<Rightarrow> Inr (Default dv)))"

section \<open>The solid-particle model\<close>

text \<open>
  Modelled from the spec: the XML engine behind \<^verbatim>\<open>SolidModel.py\<close>
  (\<^verbatim>\<open>xmlInitNode\<close>, \<^verbatim>\<open>xmlGetNode\<close>, \<^verbatim>\<open>xmlSetData\<close>, \<^verbatim>\<open>xmlGetString\<close>) is
  not among the sources. The spec describes the model class as a getter/setter facade
  over keyed reads and writes of the XML document, so a node is a store from keys to
  values, \<^verbatim>\<open>XMLThermo\<close> is a store from child tags to nodes, and a node reference
  (as \<^verbatim>\<open>self.ipp_node\<close>) is the tag of that child, \<open>None\<close> for Python's
  \<^verbatim>\<open>None\<close>.
\<close>

type_synonym xml_node = "string \<rightharpoonup> string"

record solid_model =
  XMLThermo :: "string \<rightharpoonup> xml_node"
  ipp_node :: "string option"

definition xmlGetNode :: "(string \<rightharpoonup> xml_node) \<Rightarrow> string \<Rightarrow> string option" where
  "xmlGetNode thermo tag = (case thermo tag of None \<Rightarrow> None | Some nd \<Rightarrow> Some tag)"

definition xmlInitNode :: "(string \<rightharpoonup> xml_node) \<Rightarrow> string \<Rightarrow> (string \<rightharpoonup> xml_node) \<times> string" where
  "xmlInitNode thermo tag =
     (case thermo tag of None \<Rightarrow> (thermo(tag \<mapsto> Map.empty), tag) | Some nd \<Rightarrow> (thermo, tag))"

definition xmlSetData ::
  "(string \<rightharpoonup> xml_node) \<Rightarrow> string \<Rightarrow> string \<Rightarrow> string \<Rightarrow> (string \<rightharpoonup> xml_node)" where
  "xmlSetData thermo ref key v =
     (case thermo ref of None \<Rightarrow> thermo | Some nd \<Rightarrow> thermo(ref \<mapsto> nd(key \<mapsto> v)))"

definition xmlGetString :: "(string \<rightharpoonup> xml_node) \<Rightarrow> string \<Rightarrow> string \<Rightarrow> string option" where
  "xmlGetString thermo ref key = (case thermo ref of None \<Rightarrow> None | Some nd \<Rightarrow> nd key)"

text \<open>\<^verbatim>\<open>SolidModel.__init__\<close>, as far as the coupling status reads it.\<close>

definition SolidModel_init :: "(string \<rightharpoonup> xml_node) \<Rightarrow> solid_model" where
  "SolidModel_init thermo =
     \<lparr>XMLThermo = thermo, ipp_node = xmlGetNode thermo ''solid_particles_properties''\<rparr>"

definition init_node :: "solid_model \<Rightarrow> solid_model" where
  "init_node self =
     (case ipp_node self of
        None \<Rightarrow>
          (case xmlInitNode (XMLThermo self) ''solid_particles_properties'' of
             (thermo, r) \<Rightarrow> self\<lparr>XMLThermo := thermo, ipp_node := Some r\<rparr>)
      | Some r \<Rightarrow> self)"

text \<open>
  \<^verbatim>\<open>setCouplingStatus(status)\<close>. The check \<^verbatim>\<open>isOnOff\<close> is inherited from a class
  that is not among the sources; it is the parameter \<open>isOnOff\<close>, false where it raises.
\<close>

definition setCouplingStatus :: "(string \<Rightarrow> bool) \<Rightarrow> string \<Rightarrow> solid_model \<Rightarrow> error + solid_model" where
  "setCouplingStatus isOnOff status self =
     (if \<not> isOnOff status then Inl ValueError
      else
        (case xmlInitNode (XMLThermo self) ''solid_particles_properties'' of
           (thermo, nd) \<Rightarrow>
             (let self1 = init_node (self\<lparr>XMLThermo := thermo\<rparr>) in
              case ipp_node self1 of
                None \<Rightarrow> Inl AttributeError
              | Some r \<Rightarrow>
                  Inr (self1\<lparr>XMLThermo := xmlSetData (XMLThermo self1) r ''polydispersion'' status\<rparr>))))"

text \<open>
  \<^verbatim>\<open>getCouplingStatus()\<close>: the default \<^verbatim>\<open>'off'\<close> of \<^verbatim>\<open>defaultValues\<close> without
  the node, else what the node holds under the key it asks for.
\<close>

definition getCouplingStatus :: "solid_model \<Rightarrow> string option" where
  "getCouplingStatus self =
     (case ipp_node self of
        None \<Rightarrow> Some ''off''
      | Some r \<Rightarrow> xmlGetString (XMLThermo self) r ''polydiserpsion'')"

text \<open>What the tree holds under a key of the \<^verbatim>\<open>solid_particles_properties\<close> node.\<close>

definition stored :: "solid_model \<Rightarrow> string \<Rightarrow> string option" where
  "stored self key = xmlGetString (XMLThermo self) ''solid_particles_properties'' key"

section \<open>Notions the properties are stated with\<close>

text \<open>\<^verbatim>\<open>sep.join(pieces)\<close>, the inverse of splitting.\<close>

fun py_join :: "char \<Rightarrow> string list \<Rightarrow> string" where
  "py_join sep [] = []"
| "py_join sep [p] = p"
| "py_join sep (p # q # ps) = p @ sep # py_join sep (q # ps)"

section \<open>Sample documents\<close>

definition smgr3 :: parser where
  "smgr3 = \<lparr>filename = ''smgr.xml'',
      doc = Document [Element ''studymanager'' []
              [Element ''study'' [(''label'', ''A''), (''status'', ''on'')] [],
               Element ''study'' [(''label'', ''B''), (''status'', ''off'')] [],
               Element ''study'' [(''label'', ''C''), (''status'', ''on'')] []]],
      root = Element ''studymanager'' []
              [Element ''study'' [(''label'', ''A''), (''status'', ''on'')] [],
               Element ''study'' [(''label'', ''B''), (''status'', ''off'')] [],
               Element ''study'' [(''label'', ''C''), (''status'', ''on'')] []],
      repo = None, dest = None\<rparr>"

definition study_abc :: node where
  "study_abc =
     Element ''study'' [(''label'', ''S''), (''status'', ''on''), (''tags'', ''a, b ,c'')]
       [Element ''study_keywords'' [] [Text ''laminar, 2D'']]"



text \<open>The values that the returned records hold under one key.\<close>

definition fields :: "string \<Rightarrow> error + dict list \<Rightarrow> error + val option list" where
  "fields key r = (case r of Inl e \<Rightarrow> Inl e | Inr ds \<Rightarrow> Inr (map (\<lambda>d. d key) ds))"

text \<open>The reader of a document whose root element holds the given studies.\<close>

definition smgr_of :: "node list \<Rightarrow> parser" where
  "smgr_of studies =
     \<lparr>filename = ''smgr.xml'',
      doc = Document [Element ''studymanager'' [] studies],
      root = Element ''studymanager'' [] studies,
      repo = None, dest = None\<rparr>"

definition study_run_id_child :: node where
  "study_run_id_child =
     Element ''study'' [(''label'', ''S''), (''status'', ''on'')]
       [Element ''case'' [(''label'', ''C''), (''status'', ''on'')]
          [Element ''run_id'' [] [Text ''zzz'']]]"

definition study_two_C :: node where
  "study_two_C =
     Element ''study'' [(''label'', ''S''), (''status'', ''on''), (''tags'', ''validation'')]
       [Element ''case'' [(''label'', ''C''), (''status'', ''on''), (''run_id'', ''custom''),
                          (''tags'', ''coarse'')] [],
        Element ''case'' [(''label'', ''C''), (''status'', ''on'')] []]"



section \<open>Properties\<close>

subsection \<open>Strings\<close>

lemma py_split_nonempty: "py_split sep s \<noteq> []"
  by (induction s) (auto split: list.splits)

lemma py_split_join: "py_join sep (py_split sep s) = s"
proof (induction s)
  case Nil
  show ?case by simp
next
  case (Cons c s)
  obtain p ps where ps: "py_split sep s = p # ps"
    using py_split_nonempty [of sep s] by (cases "py_split sep s") auto
  show ?case
  proof (cases "c = sep")
    case True
    with Cons ps show ?thesis by simp
  next
    case False
    with Cons ps show ?thesis by (cases ps) auto
  qed
qed

lemma py_split_no_sep: "p \<in> set (py_split sep s) \<Longrightarrow> sep \<notin> set p"
  by (induction s arbitrary: p) (auto split: if_splits list.splits)

lemma py_split_length: "length (py_split sep s) = Suc (length (filter (\<lambda>c. c = sep) s))"
  by (induction s) (auto split: list.splits simp: py_split_nonempty)

lemma rev_dropWhile_rev_split:
  "u = rev (dropWhile P (rev u)) @ rev (takeWhile P (rev u))"
  by (metis rev_append rev_rev_ident takeWhile_dropWhile_id)

lemma strip_decompose:
  "\<exists>pre post. s = pre @ strip s @ post \<and> list_all isspace pre \<and> list_all isspace post"
proof -
  define u where "u = dropWhile isspace s"
  have 1: "s = takeWhile isspace s @ u" by (simp add: u_def)
  have 2: "u = strip s @ rev (takeWhile isspace (rev u))"
    unfolding strip_def u_def [symmetric] by (rule rev_dropWhile_rev_split)
  have 3: "list_all isspace (takeWhile isspace s)"
    unfolding list_all_iff by (meson set_takeWhileD)
  have 4: "list_all isspace (rev (takeWhile isspace (rev u)))"
    unfolding list_all_iff set_rev by (meson set_takeWhileD)
  from 1 2 have "s = takeWhile isspace s @ strip s @ rev (takeWhile isspace (rev u))"
    by simp
  with 3 4 show ?thesis by blast
qed

lemma strip_ends:
  assumes ne: "strip s \<noteq> []"
  shows "\<not> isspace (hd (strip s)) \<and> \<not> isspace (last (strip s))"
proof -
  define u where "u = dropWhile isspace s"
  define w where "w = dropWhile isspace (rev u)"
  have sw: "strip s = rev w" by (simp add: strip_def u_def w_def)
  have w: "w \<noteq> []" using ne sw by simp
  then have hw: "\<not> isspace (hd w)" unfolding w_def by (rule hd_dropWhile)
  have "last (strip s) = hd w" using w sw by (simp add: last_rev)
  with hw have l: "\<not> isspace (last (strip s))" by simp
  have split: "u = strip s @ rev (takeWhile isspace (rev u))"
    unfolding sw w_def by (rule rev_dropWhile_rev_split)
  have u: "u \<noteq> []" using split ne by auto
  then have hu: "\<not> isspace (hd u)" unfolding u_def by (rule hd_dropWhile)
  have "hd u = hd (strip s)" using split ne by (metis hd_append2)
  with hu l show ?thesis by simp
qed

lemma keywords_loop_concat:
  "keywords_loop ns acc =
     acc @ concat (map (\<lambda>kw. case firstChild_data kw of
                                     Inl e \<Rightarrow> []
                                   | Inr text \<Rightarrow> map strip (py_split CHR '','' text)) ns)"
  by (induction ns arbitrary: acc) (auto split: sum.splits)

lemma isspace_simps:
  "isspace CHR '' ''" "\<not> isspace CHR ''a''" "\<not> isspace CHR ''b''" "\<not> isspace CHR ''c''"
  by (simp_all add: isspace_def)

subsection \<open>The loops of the study queries\<close>

lemma studies_label_loop_sound:
  "studies_label_loop ns labels = Inr out \<Longrightarrow>
     map Inr out =
       map Inr labels @
       map (\<lambda>n. attr_value n ''label'') (filter (\<lambda>n. attr_value n ''status'' = Inr ''on'') ns)
     \<and> (distinct labels \<longrightarrow> distinct out)"
proof (induction ns arbitrary: labels)
  case Nil
  then show ?case by simp
next
  case (Cons n ns)
  then show ?case
    by (auto split: sum.splits if_splits)
qed

lemma studies_label_loop_complete:
  assumes "\<forall>n \<in> set ns. \<exists>lab st. attr_value n ''label'' = Inr lab \<and> attr_value n ''status'' = Inr st"
    and "distinct labels"
  shows "studies_label_loop ns labels =
     (if distinct (labels @ map (\<lambda>n. projr (attr_value n ''label''))
                              (filter (\<lambda>n. attr_value n ''status'' = Inr ''on'') ns))
      then Inr (labels @ map (\<lambda>n. projr (attr_value n ''label''))
                              (filter (\<lambda>n. attr_value n ''status'' = Inr ''on'') ns))
      else Inl SystemExit)"
  using assms
proof (induction ns arbitrary: labels)
  case Nil
  then show ?case by simp
next
  case (Cons n ns)
  from Cons.prems(1) obtain lab st where
    a: "attr_value n ''label'' = Inr lab" "attr_value n ''status'' = Inr st" by auto
  have rest: "\<forall>n \<in> set ns. \<exists>lab st. attr_value n ''label'' = Inr lab \<and> attr_value n ''status'' = Inr st"
    using Cons.prems(1) by simp
  show ?case
  proof (cases "st = ''on''")
    case False
    then show ?thesis using a Cons.IH [OF rest Cons.prems(2)] by simp
  next
    case True
    show ?thesis
    proof (cases "lab \<in> set labels")
      case True
      then show ?thesis using a \<open>st = ''on''\<close> by simp
    next
      case False
      then have d: "distinct (labels @ [lab])" using Cons.prems(2) by simp
      show ?thesis using a \<open>st = ''on''\<close> False Cons.IH [OF rest d] by simp
    qed
  qed
qed

lemma attr_value_Inr_element:
  "attr_value n k = Inr v \<Longrightarrow> \<exists>tag attrs children. n = Element tag attrs children"
  by (cases n) (simp_all add: attr_value_def)

section \<open>Loading a document\<close>

text \<open>
  C2 (the check of the root tag). The constructor tests the node name of the first
  top-level node of the document, not the tag of its root element. A study-manager file
  that opens with a comment is therefore refused: the first child is the comment, whose
  node name is \<open>#comment\<close>, and the constructor leaves by \<^verbatim>\<open>sys.exit(1)\<close>,
  although the root element is \<open>studymanager\<close>.
\<close>

theorem Parser_init_leading_comment_rejected:
  "Parser_init ''smgr.xml'' None
     (Some (Document [Comment '' studies '', Element ''studymanager'' [] []])) = Inl SystemExit
   \<and> documentElement (Document [Comment '' studies '', Element ''studymanager'' [] []])
       = Some (Element ''studymanager'' [] [])"
  by (simp add: Parser_init_def)

section \<open>Studies\<close>

text \<open>
  C3 (\<^verbatim>\<open>getStudiesLabel\<close>). Let \<open>studies\<close> be the study elements below the root, in
  document order. Whenever the method returns, its result is the list of the labels of
  the studies whose status is \<open>on\<close>, in that order, and no label occurs twice. When
  every study element carries a label and a status, the method returns exactly when the
  labels of the enabled studies are pairwise distinct, and leaves by
  \<^verbatim>\<open>sys.exit(1)\<close> when two enabled studies share a label.
\<close>

theorem getStudiesLabel_enabled_labels:
  assumes "getElementsByTagName (root self) ''study'' = Inr studies"
  shows "(\<forall>ls. getStudiesLabel self = Inr ls \<longrightarrow>
            map Inr ls = map (\<lambda>n. attr_value n ''label'')
                           (filter (\<lambda>n. attr_value n ''status'' = Inr ''on'') studies)
            \<and> distinct ls)
       \<and> ((\<forall>n \<in> set studies. \<exists>lab st. attr_value n ''label'' = Inr lab
                                      \<and> attr_value n ''status'' = Inr st) \<longrightarrow>
            getStudiesLabel self =
              (if distinct (map (\<lambda>n. projr (attr_value n ''label''))
                              (filter (\<lambda>n. attr_value n ''status'' = Inr ''on'') studies))
               then Inr (map (\<lambda>n. projr (attr_value n ''label''))
                              (filter (\<lambda>n. attr_value n ''status'' = Inr ''on'') studies))
               else Inl SystemExit))"
proof (intro conjI allI impI)
  fix ls
  assume "getStudiesLabel self = Inr ls"
  then have "studies_label_loop studies [] = Inr ls"
    using assms by (simp add: getStudiesLabel_def)
  from studies_label_loop_sound [OF this]
  show "map Inr ls = map (\<lambda>n. attr_value n ''label'')
                           (filter (\<lambda>n. attr_value n ''status'' = Inr ''on'') studies)"
    and "distinct ls" by simp_all
next
  assume wf: "\<forall>n \<in> set studies. \<exists>lab st. attr_value n ''label'' = Inr lab
                                      \<and> attr_value n ''status'' = Inr st"
  have "getStudiesLabel self = studies_label_loop studies []"
    using assms by (simp add: getStudiesLabel_def)
  then show "getStudiesLabel self =
              (if distinct (map (\<lambda>n. projr (attr_value n ''label''))
                              (filter (\<lambda>n. attr_value n ''status'' = Inr ''on'') studies))
               then Inr (map (\<lambda>n. projr (attr_value n ''label''))
                              (filter (\<lambda>n. attr_value n ''status'' = Inr ''on'') studies))
               else Inl SystemExit)"
    using studies_label_loop_complete [OF wf, of "[]"] by simp
qed

theorem getStudiesLabel_enabled_labels_witness:
  "getElementsByTagName (root smgr3) ''study'' =
     Inr [Element ''study'' [(''label'', ''A''), (''status'', ''on'')] [],
          Element ''study'' [(''label'', ''B''), (''status'', ''off'')] [],
          Element ''study'' [(''label'', ''C''), (''status'', ''on'')] []]
   \<and> getStudiesLabel smgr3 = Inr [''A'', ''C'']"
proof -
  have h: "getElementsByTagName (root smgr3) ''study'' =
     Inr [Element ''study'' [(''label'', ''A''), (''status'', ''on'')] [],
          Element ''study'' [(''label'', ''B''), (''status'', ''off'')] [],
          Element ''study'' [(''label'', ''C''), (''status'', ''on'')] []]"
    by (simp add: smgr3_def)
  have wf: "\<forall>n \<in> set [Element ''study'' [(''label'', ''A''), (''status'', ''on'')] [],
          Element ''study'' [(''label'', ''B''), (''status'', ''off'')] [],
          Element ''study'' [(''label'', ''C''), (''status'', ''on'')] []].
       \<exists>lab st. attr_value n ''label'' = Inr lab \<and> attr_value n ''status'' = Inr st"
    by (simp add: attr_value_def)
  from getStudiesLabel_enabled_labels [OF h] wf
  have "getStudiesLabel smgr3 =
      (if distinct (map (\<lambda>n. projr (attr_value n ''label''))
              (filter (\<lambda>n. attr_value n ''status'' = Inr ''on'')
                 [Element ''study'' [(''label'', ''A''), (''status'', ''on'')] [],
          Element ''study'' [(''label'', ''B''), (''status'', ''off'')] [],
          Element ''study'' [(''label'', ''C''), (''status'', ''on'')] []]))
       then Inr (map (\<lambda>n. projr (attr_value n ''label''))
              (filter (\<lambda>n. attr_value n ''status'' = Inr ''on'')
                 [Element ''study'' [(''label'', ''A''), (''status'', ''on'')] [],
          Element ''study'' [(''label'', ''B''), (''status'', ''off'')] [],
          Element ''study'' [(''label'', ''C''), (''status'', ''on'')] []]))
       else Inl SystemExit)"
    by blast
  then have "getStudiesLabel smgr3 = Inr [''A'', ''C'']"
    by (simp add: attr_value_def)
  with h show ?thesis by simp
qed

text \<open>
  C4 (\<^verbatim>\<open>getStudyNode\<close> with a label that no study carries). The method does not
  raise: it returns \<^verbatim>\<open>None\<close>.
\<close>

theorem getStudyNode_absent_label_returns_None:
  "getStudyNode
     \<lparr>filename = ''smgr.xml'',
      doc = Document [Element ''studymanager'' [] [Element ''study'' [(''label'', ''A''), (''status'', ''on'')] []]],
      root = Element ''studymanager'' [] [Element ''study'' [(''label'', ''A''), (''status'', ''on'')] []],
      repo = None, dest = None\<rparr> ''B'' = Inr None"
  by (simp add: getStudyNode_def attr_value_def node_bool_def)

text \<open>
  C5 as the claim states it fails: the tokens of \<^verbatim>\<open>tags="a,,b"\<close> are returned with
  the empty token between the two commas.
\<close>

theorem getStudyTags_keeps_empty_token:
  "getStudyTags (Element ''study'' [(''label'', ''S''), (''status'', ''on''), (''tags'', ''a,,b'')] [])
     = Inr [''a'', '''', ''b'']"
  by (simp add: getStudyTags_def attr_value_def strip_def isspace_simps)

text \<open>
  C5, amended (\<^verbatim>\<open>getStudyTags\<close>, \<^verbatim>\<open>getStudyKeywords\<close> of an enabled study). Both
  return and never raise. The tags are the pieces of the \<^verbatim>\<open>tags\<close> attribute between
  its commas, each stripped, in their order, empty tokens kept; without the attribute
  the list is empty. The keywords are, for every \<^verbatim>\<open>study_keywords\<close> element below
  the study in document order, the stripped pieces of the data of its first child
  (nothing for an element without such data). Splitting loses nothing: the pieces hold no
  comma and joined by commas give the text back. Stripping removes white space only, at
  the two ends, and leaves a token that neither begins nor ends with white space.
\<close>

theorem study_tags_keywords_trimmed:
  assumes "attr_value studyNode ''status'' = Inr ''on''"
  shows "\<exists>kws.
      getStudyTags studyNode =
        Inr (case attr_value studyNode ''tags'' of
               Inl e \<Rightarrow> []
             | Inr text \<Rightarrow> map strip (py_split CHR '','' text))
    \<and> getElementsByTagName studyNode ''study_keywords'' = Inr kws
    \<and> getStudyKeywords studyNode =
        Inr (concat (map (\<lambda>kw. case firstChild_data kw of
                                  Inl e \<Rightarrow> []
                                | Inr text \<Rightarrow> map strip (py_split CHR '','' text)) kws))
    \<and> (\<forall>text. py_join CHR '','' (py_split CHR '','' text) = text
               \<and> (\<forall>p \<in> set (py_split CHR '','' text). CHR '','' \<notin> set p))
    \<and> (\<forall>p. (\<exists>pre post. p = pre @ strip p @ post \<and> list_all isspace pre \<and> list_all isspace post)
            \<and> (strip p \<noteq> [] \<longrightarrow> \<not> isspace (hd (strip p)) \<and> \<not> isspace (last (strip p))))"
proof -
  from attr_value_Inr_element [OF assms] obtain tag attrs children
    where n: "studyNode = Element tag attrs children" by blast
  have tags: "getStudyTags studyNode =
        Inr (case attr_value studyNode ''tags'' of
               Inl e \<Rightarrow> []
             | Inr text \<Rightarrow> map strip (py_split CHR '','' text))"
    using assms by (simp add: getStudyTags_def)
  have els: "getElementsByTagName studyNode ''study_keywords'' =
               Inr (elements_helper ''study_keywords'' studyNode)"
    using n by simp
  have kw: "getStudyKeywords studyNode =
        Inr (concat (map (\<lambda>kw. case firstChild_data kw of
                                  Inl e \<Rightarrow> []
                                | Inr text \<Rightarrow> map strip (py_split CHR '','' text))
                      (elements_helper ''study_keywords'' studyNode)))"
    unfolding getStudyKeywords_def els by (simp add: keywords_loop_concat)
  have sp: "\<forall>text. py_join CHR '','' (py_split CHR '','' text) = text
               \<and> (\<forall>p \<in> set (py_split CHR '','' text). CHR '','' \<notin> set p)"
    using py_split_join py_split_no_sep by blast
  have st: "\<forall>p. (\<exists>pre post. p = pre @ strip p @ post \<and> list_all isspace pre \<and> list_all isspace post)
            \<and> (strip p \<noteq> [] \<longrightarrow> \<not> isspace (hd (strip p)) \<and> \<not> isspace (last (strip p)))"
    using strip_decompose strip_ends by blast
  from tags els kw sp st show ?thesis by blast
qed

theorem study_tags_keywords_trimmed_witness:
  "attr_value study_abc ''status'' = Inr ''on''
   \<and> getStudyTags study_abc = Inr [''a'', ''b'', ''c'']
   \<and> getStudyTags (Element ''study'' [(''label'', ''S''), (''status'', ''on'')] []) = Inr []
   \<and> getStudyKeywords (Element ''study'' [(''label'', ''S''), (''status'', ''on'')] []) = Inr []"
proof -
  have h: "attr_value study_abc ''status'' = Inr ''on''"
    by (simp add: study_abc_def attr_value_def)
  have h0: "attr_value (Element ''study'' [(''label'', ''S''), (''status'', ''on'')] []) ''status'' = Inr ''on''"
    by (simp add: attr_value_def)
  from study_tags_keywords_trimmed [OF h]
  have "getStudyTags study_abc =
        Inr (case attr_value study_abc ''tags'' of
               Inl e \<Rightarrow> []
             | Inr text \<Rightarrow> map strip (py_split CHR '','' text))" by blast
  then have 1: "getStudyTags study_abc = Inr [''a'', ''b'', ''c'']"
    by (simp add: study_abc_def attr_value_def strip_def isspace_simps)
  from study_tags_keywords_trimmed [OF h0]
  have 2: "getStudyTags (Element ''study'' [(''label'', ''S''), (''status'', ''on'')] []) = Inr []"
    and 3: "getStudyKeywords (Element ''study'' [(''label'', ''S''), (''status'', ''on'')] []) = Inr []"
    by (auto simp: attr_value_def)
  from h 1 2 3 show ?thesis by simp
qed

section \<open>Attributes\<close>

text \<open>
  C8 (\<^verbatim>\<open>getAttribute\<close>, \<^verbatim>\<open>getAttributeTuple\<close> on an element). With the key present,
  \<^verbatim>\<open>getAttribute\<close> returns its value, and \<^verbatim>\<open>getAttributeTuple\<close> drops the first
  and the last character of the value, splits the rest at the commas and converts every
  piece with \<^verbatim>\<open>float\<close>: it returns the tuple of the numbers when every piece
  converts and raises \<^verbatim>\<open>ValueError\<close> otherwise. With the key absent both return the
  default when one is given and raise \<^verbatim>\<open>ValueError\<close> (the error for a mandatory
  attribute) when none is. The pieces of \<^verbatim>\<open>"(1.0,2.5,3.0)"\<close> are \<^verbatim>\<open>1.0\<close>,
  \<^verbatim>\<open>2.5\<close> and \<^verbatim>\<open>3.0\<close>.
\<close>

theorem getAttribute_value_or_default:
  "(map_of attrs k = Some v \<longrightarrow>
       getAttribute (Element tag attrs children) k dflt = Inr (Value v)
     \<and> getAttributeTuple py_float (Element tag attrs children) k dflt =
         (if \<forall>s \<in> set (py_split CHR '','' (slice_inner v)). py_float s \<noteq> None
          then Inr (Value (map (\<lambda>s. the (py_float s)) (py_split CHR '','' (slice_inner v))))
          else Inl ValueError))
   \<and> (map_of attrs k = None \<longrightarrow>
       getAttribute (Element tag attrs children) k (Some (d :: 'd)) = Inr (Default d)
     \<and> getAttribute (Element tag attrs children) k (None :: 'd option) = Inl ValueError
     \<and> getAttributeTuple py_float (Element tag attrs children) k (Some d) = Inr (Default d)
     \<and> getAttributeTuple py_float (Element tag attrs children) k (None :: 'd option) = Inl ValueError)
   \<and> py_split CHR '','' (slice_inner ''(1.0,2.5,3.0)'') = [''1.0'', ''2.5'', ''3.0'']"
proof -
  have fl: "floats_of py_float ss =
         (if \<forall>s \<in> set ss. py_float s \<noteq> None
          then Inr (map (\<lambda>s. the (py_float s)) ss) else Inl ValueError)" for ss
    by (induction ss) (auto split: option.splits sum.splits)
  have ex: "py_split CHR '','' (slice_inner ''(1.0,2.5,3.0)'') = [''1.0'', ''2.5'', ''3.0'']"
    by (simp add: slice_inner_def)
  have present: "getAttribute (Element tag attrs children) k dflt = Inr (Value v)
     \<and> getAttributeTuple py_float (Element tag attrs children) k dflt =
         (if \<forall>s \<in> set (py_split CHR '','' (slice_inner v)). py_float s \<noteq> None
          then Inr (Value (map (\<lambda>s. the (py_float s)) (py_split CHR '','' (slice_inner v))))
          else Inl ValueError)" if "map_of attrs k = Some v"
  proof -
    from that have "k \<in> set (map fst attrs)"
      by (metis map_of_eq_None_iff option.distinct(1) set_map)
    with that show ?thesis
      unfolding getAttribute_def getAttributeTuple_def fl by simp
  qed
  have absent: "getAttribute (Element tag attrs children) k (Some (d :: 'd)) = Inr (Default d)
     \<and> getAttribute (Element tag attrs children) k (None :: 'd option) = Inl ValueError
     \<and> getAttributeTuple py_float (Element tag attrs children) k (Some d) = Inr (Default d)
     \<and> getAttributeTuple py_float (Element tag attrs children) k (None :: 'd option) = Inl ValueError"
    if "map_of attrs k = None"
  proof -
    from that have "k \<notin> set (map fst attrs)"
      by (metis map_of_eq_None_iff set_map)
    then show ?thesis
      unfolding getAttribute_def getAttributeTuple_def by simp
  qed
  from ex present absent show ?thesis by blast
qed

theorem getAttribute_value_or_default_witness:
  "getAttribute (Element ''probe'' [(''pos'', ''(1.0,2.5,3.0)'')] []) ''pos'' (None :: string option)
     = Inr (Value ''(1.0,2.5,3.0)'')
   \<and> getAttributeTuple
       (\<lambda>s. if s = ''1.0'' then Some (10 :: nat) else if s = ''2.5'' then Some 25
            else if s = ''3.0'' then Some 30 else None)
       (Element ''probe'' [(''pos'', ''(1.0,2.5,3.0)'')] []) ''pos'' (None :: string option)
     = Inr (Value [10, 25, 30])
   \<and> getAttribute (Element ''probe'' [] []) ''pos'' (None :: string option) = Inl ValueError
   \<and> getAttribute (Element ''probe'' [] []) ''pos'' (Some ''0'') = Inr (Default ''0'')"
proof -
  let ?f = "\<lambda>s. if s = ''1.0'' then Some (10 :: nat) else if s = ''2.5'' then Some 25
            else if s = ''3.0'' then Some 30 else None"
  have p: "map_of [(''pos'', ''(1.0,2.5,3.0)'')] ''pos'' = Some ''(1.0,2.5,3.0)''" by simp
  have a: "map_of ([] :: (string \<times> string) list) ''pos'' = None" by simp
  note t1 = getAttribute_value_or_default
    [where attrs = "[(''pos'', ''(1.0,2.5,3.0)'')]" and k = "''pos''" and v = "''(1.0,2.5,3.0)''"
       and tag = "''probe''" and children = "[]" and dflt = "None :: string option"
       and py_float = ?f and d = "''0''"]
  note t2 = getAttribute_value_or_default
    [where attrs = "[]" and k = "''pos''" and v = "''x''"
       and tag = "''probe''" and children = "[]" and dflt = "None :: string option"
       and py_float = ?f and d = "''0''"]
  from t1 p have 1: "getAttribute (Element ''probe'' [(''pos'', ''(1.0,2.5,3.0)'')] []) ''pos'' (None :: string option)
     = Inr (Value ''(1.0,2.5,3.0)'')"
    and 2: "getAttributeTuple ?f
       (Element ''probe'' [(''pos'', ''(1.0,2.5,3.0)'')] []) ''pos'' (None :: string option)
     = Inr (Value [10, 25, 30])"
    by (simp_all add: slice_inner_def)
  from t2 a have 3: "getAttribute (Element ''probe'' [] []) ''pos'' (None :: string option) = Inl ValueError"
    and 4: "getAttribute (Element ''probe'' [] []) ''pos'' (Some ''0'') = Inr (Default ''0'')"
    by simp_all
  from 1 2 3 4 show ?thesis by simp
qed

section \<open>The coupling status of the solid-particle model\<close>

text \<open>
  C10 (\<^verbatim>\<open>setCouplingStatus\<close> then \<^verbatim>\<open>getCouplingStatus\<close>). A successful
  \<^verbatim>\<open>setCouplingStatus(s)\<close> stores \<open>s\<close> under the key \<open>polydispersion\<close> and changes
  no other key of the node. \<^verbatim>\<open>getCouplingStatus\<close> then returns what the node holds
  under the other key, \<open>polydiserpsion\<close>, which is what it held there before the call:
  the status just written is not read back.
\<close>

theorem coupling_status_key_mismatch:
  "setCouplingStatus isOnOff s (SolidModel_init thermo) = Inr m \<longrightarrow>
     stored m ''polydispersion'' = Some s
   \<and> (\<forall>k. k \<noteq> ''polydispersion'' \<longrightarrow> stored m k = stored (SolidModel_init thermo) k)
   \<and> getCouplingStatus m = stored m ''polydiserpsion''
   \<and> getCouplingStatus m = stored (SolidModel_init thermo) ''polydiserpsion''"
proof
  assume a: "setCouplingStatus isOnOff s (SolidModel_init thermo) = Inr m"
  show "stored m ''polydispersion'' = Some s
   \<and> (\<forall>k. k \<noteq> ''polydispersion'' \<longrightarrow> stored m k = stored (SolidModel_init thermo) k)
   \<and> getCouplingStatus m = stored m ''polydiserpsion''
   \<and> getCouplingStatus m = stored (SolidModel_init thermo) ''polydiserpsion''"
  proof (cases "thermo ''solid_particles_properties''")
    case None
    with a have m: "m = \<lparr>XMLThermo = thermo(''solid_particles_properties'' \<mapsto>
                            Map.empty(''polydispersion'' \<mapsto> s)),
                         ipp_node = Some ''solid_particles_properties''\<rparr>"
      by (auto simp: setCouplingStatus_def SolidModel_init_def xmlInitNode_def xmlGetNode_def
            init_node_def xmlSetData_def split: if_splits)
    show ?thesis
      using None by (simp add: m stored_def getCouplingStatus_def xmlGetString_def SolidModel_init_def)
  next
    case (Some nd)
    with a have m: "m = \<lparr>XMLThermo = thermo(''solid_particles_properties'' \<mapsto>
                            nd(''polydispersion'' \<mapsto> s)),
                         ipp_node = Some ''solid_particles_properties''\<rparr>"
      by (auto simp: setCouplingStatus_def SolidModel_init_def xmlInitNode_def xmlGetNode_def
            init_node_def xmlSetData_def split: if_splits)
    show ?thesis
      using Some by (simp add: m stored_def getCouplingStatus_def xmlGetString_def SolidModel_init_def)
  qed
qed

theorem coupling_status_key_mismatch_witness:
  "\<exists>m. setCouplingStatus (\<lambda>s. s = ''on'' \<or> s = ''off'') ''on'' (SolidModel_init Map.empty) = Inr m
      \<and> stored m ''polydispersion'' = Some ''on''
      \<and> getCouplingStatus m = None"
proof -
  obtain m where m: "setCouplingStatus (\<lambda>s. s = ''on'' \<or> s = ''off'') ''on'' (SolidModel_init Map.empty) = Inr m"
    by (simp add: setCouplingStatus_def SolidModel_init_def xmlInitNode_def xmlGetNode_def
            init_node_def)
  from coupling_status_key_mismatch [of "\<lambda>s. s = ''on'' \<or> s = ''off''" "''on''" Map.empty m] m
  have "stored m ''polydispersion'' = Some ''on''"
    and "getCouplingStatus m = stored (SolidModel_init Map.empty) ''polydiserpsion''"
    by simp_all
  then have "stored m ''polydispersion'' = Some ''on'' \<and> getCouplingStatus m = None"
    by (simp add: stored_def SolidModel_init_def xmlGetString_def)
  with m show ?thesis by blast
qed

section \<open>The cases of a study\<close>






section \<open>The records of the cases\<close>

lemma children_loop_frame:
  "children_loop cs d = Inr d' \<Longrightarrow> key \<notin> set setup_filter_keys \<Longrightarrow>
   \<forall>c \<in> set cs. nodeName c = key \<longrightarrow> childNodes c = [] \<Longrightarrow> d' key = d key"
proof (induction cs d rule: children_loop.induct)
  case (1 d)
  then show ?case by simp
next
  case (2 tag attrs ns d)
  then show ?case
    by (auto simp: fun_upd_def split: if_splits option.splits val.splits)
next
  case (3 tag attrs c cs ns d)
  then show ?case
    by (auto simp: fun_upd_def split: if_splits sum.splits)
qed simp_all

lemma study_node_loop_Some:
  "study_node_loop ns l = Inr (Some n) \<Longrightarrow>
     attr_value n ''status'' = Inr ''on'' \<and> attr_value n ''label'' = Inr l \<and> n \<in> set ns"
  by (induction ns) (auto split: sum.splits if_splits)

lemma getStudyNode_Some:
  "getStudyNode self l = Inr (Some n) \<Longrightarrow>
     attr_value n ''status'' = Inr ''on'' \<and> attr_value n ''label'' = Inr l"
  by (auto simp: getStudyNode_def split: sum.splits dest: study_node_loop_Some)

lemma cases_keywords_loop_records:
  "cases_keywords_loop self l ns lc acc = Inr out \<Longrightarrow>
   \<exists>ds. out = acc @ ds
      \<and> length ds = length (filter (\<lambda>n. attr_value n ''status'' = Inr ''on'') ns)
      \<and> (\<forall>i < length ds. \<exists>lab.
            attr_value (filter (\<lambda>n. attr_value n ''status'' = Inr ''on'') ns ! i) ''label'' = Inr lab
          \<and> case_record self l (filter (\<lambda>n. attr_value n ''status'' = Inr ''on'') ns ! i) lab
               ((case lc lab of None \<Rightarrow> 0 | Some k \<Rightarrow> k)
                + length (filter (\<lambda>m. attr_value m ''label'' = Inr lab)
                     (take (Suc i) (filter (\<lambda>n. attr_value n ''status'' = Inr ''on'') ns))))
             = Inr (ds ! i))"
proof (induction ns arbitrary: lc acc)
  case Nil
  then show ?case by simp
next
  case (Cons n ns)
  let ?on = "\<lambda>n. attr_value n ''status'' = Inr ''on''"
  show ?case
  proof (cases "?on n")
    case False
    with Cons.prems have "cases_keywords_loop self l ns lc acc = Inr out"
      by (auto split: sum.splits if_splits)
    from Cons.IH [OF this] False show ?thesis by simp
  next
    case True
    with Cons.prems obtain lab0 d0 where
      lab0: "attr_value n ''label'' = Inr lab0" and
      d0: "case_record self l n lab0 (case lc lab0 of None \<Rightarrow> 1 | Some k \<Rightarrow> k + 1) = Inr d0" and
      rest: "cases_keywords_loop self l ns
               (lc(lab0 \<mapsto> (case lc lab0 of None \<Rightarrow> 1 | Some k \<Rightarrow> k + 1))) (acc @ [d0]) = Inr out"
      by (auto simp: Let_def split: sum.splits if_splits)
    let ?lc' = "lc(lab0 \<mapsto> (case lc lab0 of None \<Rightarrow> 1 | Some k \<Rightarrow> k + 1))"
    from Cons.IH [OF rest] obtain ds where
      out: "out = (acc @ [d0]) @ ds" and
      len: "length ds = length (filter ?on ns)" and
      recs: "\<forall>i < length ds. \<exists>lab.
            attr_value (filter ?on ns ! i) ''label'' = Inr lab
          \<and> case_record self l (filter ?on ns ! i) lab
               ((case ?lc' lab of None \<Rightarrow> 0 | Some k \<Rightarrow> k)
                + length (filter (\<lambda>m. attr_value m ''label'' = Inr lab)
                     (take (Suc i) (filter ?on ns))))
             = Inr (ds ! i)"
      by blast
    have c0: "(case lc lab0 of None \<Rightarrow> 1 | Some k \<Rightarrow> k + 1) = (case lc lab0 of None \<Rightarrow> 0 | Some k \<Rightarrow> k) + 1"
      by (simp split: option.splits)
    have "\<exists>lab. attr_value (filter ?on (n # ns) ! i) ''label'' = Inr lab
          \<and> case_record self l (filter ?on (n # ns) ! i) lab
               ((case lc lab of None \<Rightarrow> 0 | Some k \<Rightarrow> k)
                + length (filter (\<lambda>m. attr_value m ''label'' = Inr lab)
                     (take (Suc i) (filter ?on (n # ns)))))
             = Inr ((d0 # ds) ! i)" if i: "i < length (d0 # ds)" for i
    proof (cases i)
      case 0
      then show ?thesis using True lab0 d0 c0 by simp
    next
      case (Suc j)
      with i have j: "j < length ds" by simp
      from recs j obtain lab where
        l1: "attr_value (filter ?on ns ! j) ''label'' = Inr lab" and
        l2: "case_record self l (filter ?on ns ! j) lab
               ((case ?lc' lab of None \<Rightarrow> 0 | Some k \<Rightarrow> k)
                + length (filter (\<lambda>m. attr_value m ''label'' = Inr lab)
                     (take (Suc j) (filter ?on ns))))
             = Inr (ds ! j)" by blast
      have cnt: "(case ?lc' lab of None \<Rightarrow> 0 | Some k \<Rightarrow> k)
                + length (filter (\<lambda>m. attr_value m ''label'' = Inr lab)
                     (take (Suc j) (filter ?on ns)))
             = (case lc lab of None \<Rightarrow> 0 | Some k \<Rightarrow> k)
                + length (filter (\<lambda>m. attr_value m ''label'' = Inr lab)
                     (take (Suc (Suc j)) (filter ?on (n # ns))))"
        using True lab0 by (auto split: option.splits)
      show ?thesis using Suc True l1 l2 cnt by simp
    qed
    then have "\<forall>i < length (d0 # ds). \<exists>lab. attr_value (filter ?on (n # ns) ! i) ''label'' = Inr lab
          \<and> case_record self l (filter ?on (n # ns) ! i) lab
               ((case lc lab of None \<Rightarrow> 0 | Some k \<Rightarrow> k)
                + length (filter (\<lambda>m. attr_value m ''label'' = Inr lab)
                     (take (Suc i) (filter ?on (n # ns)))))
             = Inr ((d0 # ds) ! i)" by blast
    moreover have "out = acc @ (d0 # ds)" using out by simp
    moreover have "length (d0 # ds) = length (filter ?on (n # ns))" using len True by simp
    ultimately show ?thesis by blast
  qed
qed

lemma records_of_enabled_cases:
  assumes "getStudyNode self l = Inr (Some studyNode)"
    and "getElementsByTagName studyNode ''case'' = Inr cases"
    and "getStatusOnCasesKeywords self l = Inr records"
  shows "length records = length (filter (\<lambda>n. attr_value n ''status'' = Inr ''on'') cases)
      \<and> (\<forall>i < length records. \<exists>lab.
            attr_value (filter (\<lambda>n. attr_value n ''status'' = Inr ''on'') cases ! i) ''label'' = Inr lab
          \<and> case_record self l (filter (\<lambda>n. attr_value n ''status'' = Inr ''on'') cases ! i) lab
               (length (filter (\<lambda>m. attr_value m ''label'' = Inr lab)
                     (take (Suc i) (filter (\<lambda>n. attr_value n ''status'' = Inr ''on'') cases))))
             = Inr (records ! i))"
proof -
  have "cases_keywords_loop self l cases Map.empty [] = Inr records"
    using assms by (simp add: getStatusOnCasesKeywords_def)
  from cases_keywords_loop_records [OF this] show ?thesis by simp
qed

lemma case_record_keys:
  assumes rec: "case_record self l n lab count = Inr d"
    and sn: "getStudyNode self l = Inr (Some studyNode)"
  shows "\<exists>study_tags. getStudyTags studyNode = Inr study_tags
     \<and> ((\<forall>c \<in> set (childNodes n). nodeName c = ''run_id'' \<longrightarrow> childNodes c = []) \<longrightarrow>
          d ''run_id'' = Some (VStr (case_run_id n count)))
     \<and> ((\<forall>c \<in> set (childNodes n). nodeName c = ''tags'' \<longrightarrow> childNodes c = []) \<longrightarrow>
          d ''tags'' = Some (if case_tags n @ study_tags = [] then VNone
                             else VList (case_tags n @ study_tags)))
     \<and> ((\<forall>c \<in> set (childNodes n). nodeName c = ''expected_time'' \<longrightarrow> childNodes c = []) \<longrightarrow>
          d ''expected_time'' = Some (expected_time n))"
proof -
  from getStudyNode_Some [OF sn] have on: "attr_value studyNode ''status'' = Inr ''on''" by simp
  then obtain st where st: "getStudyTags studyNode = Inr st"
    by (simp add: getStudyTags_def)
  have sto: "study_tags_of self l = Inr st"
    using sn st by (simp add: study_tags_of_def)
  define d0 :: dict where "d0 = Map.empty
              (''node'' \<mapsto> VNode n,
               ''label'' \<mapsto> VStr lab,
               ''run_id'' \<mapsto> VStr (case_run_id n count),
               ''n_procs'' \<mapsto> (case attr_value n ''n_procs'' of Inl e \<Rightarrow> VNone | Inr v \<Rightarrow> VStr v),
               ''tags'' \<mapsto> (if case_tags n @ st = [] then VNone
                              else VList (case_tags n @ st)),
               ''depends'' \<mapsto> (case getDepends n of Inl e \<Rightarrow> VNone | Inr a \<Rightarrow> VStr a),
               ''expected_time'' \<mapsto> expected_time n,
               ''notebook'' \<mapsto> VNone,
               ''parametric'' \<mapsto> VNone,
               ''kw_args'' \<mapsto> VNone)"
  have loop: "children_loop (childNodes n) d0 = Inr d"
    using rec sto unfolding case_record_def d0_def by simp
  have k1: "''run_id'' \<notin> set setup_filter_keys" "''tags'' \<notin> set setup_filter_keys"
    "''expected_time'' \<notin> set setup_filter_keys"
    by (simp_all add: setup_filter_keys_def)
  have v1: "d0 ''run_id'' = Some (VStr (case_run_id n count))"
    by (simp add: d0_def)
  have v2: "d0 ''tags'' = Some (if case_tags n @ st = [] then VNone else VList (case_tags n @ st))"
    by (simp add: d0_def)
  have v3: "d0 ''expected_time'' = Some (expected_time n)"
    by (simp add: d0_def)
  from children_loop_frame [OF loop k1(1)] children_loop_frame [OF loop k1(2)]
    children_loop_frame [OF loop k1(3)] v1 v2 v3 st
  show ?thesis by auto
qed




lemma char_of_50: "char_of (50::nat) = CHR ''2''"
  by code_simp

lemmas eval_defs =
  smgr_of_def getStatusOnCasesKeywords_def getStudyNode_def attr_value_def node_bool_def
  case_record_def study_tags_of_def getStudyTags_def case_run_id_def case_tags_def
  getDepends_def setup_filter_keys_def structural_tags_def fields_def

text \<open>
  C6 as the claim states it fails: an enabled case without a \<^verbatim>\<open>run_id\<close> attribute
  that has a child element \<^verbatim>\<open><run_id>zzz</run_id>\<close> gets the run id \<open>zzz\<close>, not
  \<open>run1\<close>: the loop over the child elements stores the text of the child under its tag
  name, over the value computed from the attributes.
\<close>

theorem run_id_child_overrides:
  "fields ''run_id'' (getStatusOnCasesKeywords (smgr_of [study_run_id_child]) ''S'')
     = Inr [Some (VStr ''zzz'')]"
  by (simp add: eval_defs study_run_id_child_def)

text \<open>
  C6, amended (run ids and tags in \<^verbatim>\<open>getStatusOnCasesKeywords\<close>). Let \<open>enabled\<close> be
  the case elements with status \<open>on\<close> below the study, in document order. When the
  method returns, it returns one record per enabled case, in that order. For the
  \<open>i\<close>-th of them, let \<open>k\<close> be the number of enabled cases up to and including it
  that carry its label. If no child element of the case named \<open>run_id\<close> has child
  nodes, the record's run id is the \<^verbatim>\<open>run_id\<close> attribute when that is present and
  not empty, and \<open>run\<close> followed by the decimal digits of \<open>k\<close> otherwise. If no child
  element named \<open>tags\<close> has child nodes, the record's tags are the case's own tags
  followed by the tags of the study, or \<^verbatim>\<open>None\<close> when both are empty.
\<close>

theorem case_records_run_id_tags:
  assumes "getStudyNode self l = Inr (Some studyNode)"
    and "getElementsByTagName studyNode ''case'' = Inr cases"
    and "getStatusOnCasesKeywords self l = Inr records"
  shows "(let enabled = filter (\<lambda>n. attr_value n ''status'' = Inr ''on'') cases in
     length records = length enabled \<and>
     (\<exists>study_tags. getStudyTags studyNode = Inr study_tags \<and>
      (\<forall>i < length records.
         (let n = enabled ! i;
              k = length (filter (\<lambda>m. attr_value m ''label'' = attr_value n ''label'')
                            (take (Suc i) enabled))
          in ((\<forall>c \<in> set (childNodes n). nodeName c = ''run_id'' \<longrightarrow> childNodes c = []) \<longrightarrow>
                (records ! i) ''run_id'' =
                   Some (VStr (case attr_value n ''run_id'' of
                                 Inl e \<Rightarrow> ''run'' @ str_nat k
                               | Inr v \<Rightarrow> if v \<noteq> [] then v else ''run'' @ str_nat k)))
            \<and> ((\<forall>c \<in> set (childNodes n). nodeName c = ''tags'' \<longrightarrow> childNodes c = []) \<longrightarrow>
                (records ! i) ''tags'' =
                   Some (if case_tags n @ study_tags = [] then VNone
                         else VList (case_tags n @ study_tags)))))))"
proof -
  let ?en = "filter (\<lambda>n. attr_value n ''status'' = Inr ''on'') cases"
  from getStudyNode_Some [OF assms(1)] obtain st where st: "getStudyTags studyNode = Inr st"
    by (auto simp: getStudyTags_def)
  from records_of_enabled_cases [OF assms] have
    len: "length records = length ?en" and
    recs: "\<forall>i < length records. \<exists>lab.
            attr_value (?en ! i) ''label'' = Inr lab
          \<and> case_record self l (?en ! i) lab
               (length (filter (\<lambda>m. attr_value m ''label'' = Inr lab) (take (Suc i) ?en)))
             = Inr (records ! i)"
    by blast+
  have "((\<forall>c \<in> set (childNodes (?en ! i)). nodeName c = ''run_id'' \<longrightarrow> childNodes c = []) \<longrightarrow>
                (records ! i) ''run_id'' =
                   Some (VStr (case attr_value (?en ! i) ''run_id'' of
                                 Inl e \<Rightarrow> ''run'' @ str_nat (length (filter (\<lambda>m. attr_value m ''label'' = attr_value (?en ! i) ''label'') (take (Suc i) ?en)))
                               | Inr v \<Rightarrow> if v \<noteq> [] then v else ''run'' @ str_nat (length (filter (\<lambda>m. attr_value m ''label'' = attr_value (?en ! i) ''label'') (take (Suc i) ?en))))))
            \<and> ((\<forall>c \<in> set (childNodes (?en ! i)). nodeName c = ''tags'' \<longrightarrow> childNodes c = []) \<longrightarrow>
                (records ! i) ''tags'' =
                   Some (if case_tags (?en ! i) @ st = [] then VNone
                         else VList (case_tags (?en ! i) @ st)))" if i: "i < length records" for i
  proof -
    from recs i obtain lab where
      lab: "attr_value (?en ! i) ''label'' = Inr lab" and
      rec: "case_record self l (?en ! i) lab
               (length (filter (\<lambda>m. attr_value m ''label'' = Inr lab) (take (Suc i) ?en)))
             = Inr (records ! i)" by blast
    from case_record_keys [OF rec assms(1)] st have
      r1: "(\<forall>c \<in> set (childNodes (?en ! i)). nodeName c = ''run_id'' \<longrightarrow> childNodes c = []) \<longrightarrow>
             (records ! i) ''run_id'' =
               Some (VStr (case_run_id (?en ! i)
                  (length (filter (\<lambda>m. attr_value m ''label'' = Inr lab) (take (Suc i) ?en)))))" and
      r2: "(\<forall>c \<in> set (childNodes (?en ! i)). nodeName c = ''tags'' \<longrightarrow> childNodes c = []) \<longrightarrow>
             (records ! i) ''tags'' =
               Some (if case_tags (?en ! i) @ st = [] then VNone
                     else VList (case_tags (?en ! i) @ st))"
      by auto
    from r1 r2 show ?thesis
      unfolding lab case_run_id_def by blast
  qed
  with len st show ?thesis by (simp add: Let_def)
qed

theorem case_records_run_id_tags_witness:
  "\<exists>records. getStatusOnCasesKeywords (smgr_of [study_two_C]) ''S'' = Inr records
      \<and> length records = 2
      \<and> (records ! 0) ''run_id'' = Some (VStr ''custom'')
      \<and> (records ! 1) ''run_id'' = Some (VStr ''run2'')
      \<and> (records ! 0) ''tags'' = Some (VList [''coarse'', ''validation''])
      \<and> (records ! 1) ''tags'' = Some (VList [''validation''])"
proof -
  let ?c1 = "Element ''case'' [(''label'', ''C''), (''status'', ''on''), (''run_id'', ''custom''),
                          (''tags'', ''coarse'')] []"
  let ?c2 = "Element ''case'' [(''label'', ''C''), (''status'', ''on'')] []"
  obtain records where r: "getStatusOnCasesKeywords (smgr_of [study_two_C]) ''S'' = Inr records"
    by (simp add: eval_defs study_two_C_def)
  have h1: "getStudyNode (smgr_of [study_two_C]) ''S'' = Inr (Some study_two_C)"
    by (simp add: smgr_of_def getStudyNode_def attr_value_def node_bool_def study_two_C_def)
  have h2: "getElementsByTagName study_two_C ''case'' = Inr [?c1, ?c2]"
    by (simp add: study_two_C_def)
  have en: "filter (\<lambda>n. attr_value n ''status'' = Inr ''on'') [?c1, ?c2] = [?c1, ?c2]"
    by (simp add: attr_value_def)
  have st: "getStudyTags study_two_C = Inr [''validation'']"
    by (simp add: getStudyTags_def attr_value_def study_two_C_def strip_def isspace_def)
  note t = case_records_run_id_tags [OF h1 h2 r, unfolded Let_def en st]
  from t have len: "length records = 2" by simp
  from t have all: "\<forall>i < length records.
      ((\<forall>c \<in> set (childNodes ([?c1, ?c2] ! i)). nodeName c = ''run_id'' \<longrightarrow> childNodes c = []) \<longrightarrow>
          (records ! i) ''run_id'' =
             Some (VStr (case attr_value ([?c1, ?c2] ! i) ''run_id'' of
                 Inl e \<Rightarrow> ''run'' @ str_nat (length (filter (\<lambda>m. attr_value m ''label'' = attr_value ([?c1, ?c2] ! i) ''label'') (take (Suc i) [?c1, ?c2])))
               | Inr v \<Rightarrow> if v \<noteq> [] then v else ''run'' @ str_nat (length (filter (\<lambda>m. attr_value m ''label'' = attr_value ([?c1, ?c2] ! i) ''label'') (take (Suc i) [?c1, ?c2]))))))
      \<and> ((\<forall>c \<in> set (childNodes ([?c1, ?c2] ! i)). nodeName c = ''tags'' \<longrightarrow> childNodes c = []) \<longrightarrow>
          (records ! i) ''tags'' =
             Some (if case_tags ([?c1, ?c2] ! i) @ [''validation''] = [] then VNone
                   else VList (case_tags ([?c1, ?c2] ! i) @ [''validation''])))"
    by auto
  from all len have i0: "(records ! 0) ''run_id'' = Some (VStr ''custom'')
      \<and> (records ! 0) ''tags'' = Some (VList [''coarse'', ''validation''])"
    by (simp add: attr_value_def case_tags_def strip_def isspace_def)
  have "str_nat 2 = ''2''" by code_simp
  then have two: "str_nat (Suc (Suc 0)) = ''2''" by (simp add: numeral_2_eq_2)
  from all [rule_format, of 1] len have i1: "(records ! 1) ''run_id'' = Some (VStr ''run2'')
      \<and> (records ! 1) ''tags'' = Some (VList [''validation''])"
    by (simp add: attr_value_def case_tags_def two)
  from r len i0 i1 show ?thesis by blast
qed




end
